theory Spec2Isabelle
  imports Complex_Main "HOL-Library.Sublist"
begin

section \<open>Strings and numbers of the runtime\<close>

text \<open>
  A JavaScript string is modelled as a \<^typ>\<open>string\<close>: the list of its code units, read
  here in the 8-bit range (every literal of the sources that a property below depends on
  is ASCII). \<open>length\<close> is the \<open>.length\<close> of the source.

  \<open>s.substring(start, end)\<close> clamps both indices to \<open>[0, s.length]\<close> and swaps them when
  \<open>start > end\<close>.
\<close>

definition substring :: "string \<Rightarrow> int \<Rightarrow> int \<Rightarrow> string" where
  "substring s start fin =
     (let n = int (length s);
          a = max 0 (min start n);
          b = max 0 (min fin n);
          lo = min a b;
          hi = max a b
      in take (nat (hi - lo)) (drop (nat lo) s))"

text \<open>
  A JavaScript number is modelled as an exact rational or \<open>NaN\<close>. Rounding of doubles and
  the infinities are left out: every number of the sources below is a clock reading, a
  small constant, the result of \<open>parseInt\<close> or a number read from JSON.
  A comparison with \<open>NaN\<close> on either side is false, and \<open>NaN\<close> absorbs arithmetic.
\<close>

datatype number = NaN | Num rat

fun num_add :: "number \<Rightarrow> number \<Rightarrow> number" where
  "num_add (Num a) (Num b) = Num (a + b)"
| "num_add _ _ = NaN"

fun num_mul :: "number \<Rightarrow> number \<Rightarrow> number" where
  "num_mul (Num a) (Num b) = Num (a * b)"
| "num_mul _ _ = NaN"

fun num_le :: "number \<Rightarrow> number \<Rightarrow> bool" where
  "num_le (Num a) (Num b) = (a \<le> b)"
| "num_le _ _ = False"

text \<open>Truthiness, as \<open>!x\<close> and \<open>x || y\<close> read it: the empty string, \<open>0\<close> and \<open>NaN\<close> are falsy.\<close>

fun truthy_number :: "number \<Rightarrow> bool" where
  "truthy_number NaN = False"
| "truthy_number (Num r) = (if r = 0 then False else True)"

text \<open>
  A value that may be \<open>undefined\<close> (an unset environment variable, an omitted JSON field or
  an omitted argument) is an \<open>option\<close>.
\<close>

fun truthy_string :: "string option \<Rightarrow> bool" where
  "truthy_string None = False"
| "truthy_string (Some s) = (if s = [] then False else True)"

text \<open>\<open>Date.now() / 1000\<close>: the clock is read in whole milliseconds.\<close>

definition now_seconds :: "int \<Rightarrow> number" where
  "now_seconds clock_ms = Num (of_int clock_ms / 1000)"

section \<open>Security utilities\<close>

subsection \<open>\<open>maskToken\<close>\<close>

text \<open>
  \<^verbatim>\<open>
  export function maskToken(token: string, visibleChars = 8): string {
    if (!token || token.length <= visibleChars) { return "[REDACTED]"; }
    return `${token.substring(0, visibleChars)}...[MASKED]`;
  }
  \<close>
  The second argument is \<open>None\<close> when the caller omits it.
\<close>

definition maskToken :: "string \<Rightarrow> int option \<Rightarrow> string" where
  "maskToken token visible =
     (let visibleChars = (case visible of None \<Rightarrow> 8 | Some v \<Rightarrow> v)
      in if token = [] \<or> int (length token) \<le> visibleChars
         then ''[REDACTED]''
         else substring token 0 visibleChars @ ''...[MASKED]'')"

subsection \<open>\<open>TokenRefreshRateLimit\<close>\<close>

text \<open>
  The class holds one static field, \<open>lastRefresh\<close>, initially \<open>0\<close>; \<open>canRefresh\<close> reads the
  clock (\<open>Date.now()\<close>, whole milliseconds), which the model takes as an argument, and
  returns its answer with the updated state.
\<close>

record rate_limit =
  lastRefresh :: int

definition MIN_INTERVAL :: int where
  "MIN_INTERVAL = 60000"

definition rate_limit_init :: rate_limit where
  "rate_limit_init = \<lparr>lastRefresh = 0\<rparr>"

definition canRefresh :: "int \<Rightarrow> rate_limit \<Rightarrow> bool \<times> rate_limit" where
  "canRefresh now st =
     (if now - lastRefresh st < MIN_INTERVAL then (False, st)
      else (True, st\<lparr>lastRefresh := now\<rparr>))"

definition getRemainingCooldown :: "int \<Rightarrow> rate_limit \<Rightarrow> int" where
  "getRemainingCooldown now st = max 0 (MIN_INTERVAL - (now - lastRefresh st))"

text \<open>
  A sequence of calls at the given clock readings: the answers, in order, and the final
  state. \<open>last_permitted\<close> is the clock reading of the latest call that was answered
  \<open>true\<close>, starting from what the state held before.
\<close>

fun calls :: "rate_limit \<Rightarrow> int list \<Rightarrow> bool list \<times> rate_limit" where
  "calls st [] = ([], st)"
| "calls st (t # ts) =
     (case canRefresh t st of (r, st') \<Rightarrow>
        (case calls st' ts of (rs, st'') \<Rightarrow> (r # rs, st'')))"

fun last_permitted :: "int \<Rightarrow> (int \<times> bool) list \<Rightarrow> int" where
  "last_permitted t0 [] = t0"
| "last_permitted t0 ((t, r) # xs) = last_permitted (if r then t else t0) xs"

subsection \<open>Masking: \<open>SecureLogger.maskSensitiveData\<close> and \<open>sanitizeErrorMessage\<close>\<close>

text \<open>
  \<open>s.replace(/re/g, "text")\<close> scans \<open>s\<close> from the left: at each position it asks whether
  the expression matches there; a match is replaced by the text and the scan goes on
  behind it, otherwise the character is copied. The matcher gives the length of the match
  at the head of a string. An empty match (none of the four expressions below has one)
  inserts the text and copies one character, as the runtime does. None of the replacement
  texts holds a \<open>$\<close>, so they are inserted as they are.
\<close>

function replace_all :: "(string \<Rightarrow> nat option) \<Rightarrow> string \<Rightarrow> string \<Rightarrow> string" where
  "replace_all m rep [] = (case m [] of None \<Rightarrow> [] | Some _ \<Rightarrow> rep)"
| "replace_all m rep (c # cs) =
     (case m (c # cs) of
        None \<Rightarrow> c # replace_all m rep cs
      | Some 0 \<Rightarrow> rep @ c # replace_all m rep cs
      | Some (Suc k) \<Rightarrow> rep @ replace_all m rep (drop k cs))"
  by pat_completeness auto
termination
  by (relation "measure (\<lambda>(m, rep, s). length s)") auto

text \<open>The class \<open>[a-zA-Z0-9_-]\<close>, the class \<open>\s\<close> (in the 8-bit range) and the double quote.\<close>

definition is_token_char :: "char \<Rightarrow> bool" where
  "is_token_char c =
     (let n = (of_char c :: nat)
      in (97 \<le> n \<and> n \<le> 122) \<or> (65 \<le> n \<and> n \<le> 90) \<or> (48 \<le> n \<and> n \<le> 57)
         \<or> c = CHR ''_'' \<or> c = CHR ''-'')"

definition is_space :: "char \<Rightarrow> bool" where
  "is_space c =
     (let n = (of_char c :: nat)
      in (9 \<le> n \<and> n \<le> 13) \<or> n = 32 \<or> n = 160)"

definition dquote :: char where
  "dquote = CHR 0x22"

definition not_dquote :: "char \<Rightarrow> bool" where
  "not_dquote c = (if c = dquote then False else True)"

text \<open>
  \<open>/sk-ant-[a-zA-Z0-9_-]+/\<close> and \<open>/refresh_[a-zA-Z0-9_-]+/\<close>: the fixed prefix, then the
  longest run of class characters, which must not be empty.
\<close>

definition match_prefixed :: "string \<Rightarrow> string \<Rightarrow> nat option" where
  "match_prefixed pre s =
     (if prefix pre s
      then (let run = takeWhile is_token_char (drop (length pre) s)
            in if run = [] then None else Some (length pre + length run))
      else None)"

text \<open>
  \<open>/"access_token":\s*"[^"]+"/\<close> and \<open>/"refresh_token":\s*"[^"]+"/\<close>: the quoted key and
  the colon, the longest run of white space, a quote, the longest run of characters other
  than a quote, which must not be empty, and a quote. Both runs are greedy, and giving
  characters back never helps: what follows the white space must be a quote, which is no
  white space, and what follows the value must be a quote, which the value cannot hold.
\<close>

definition match_json_field :: "string \<Rightarrow> string \<Rightarrow> nat option" where
  "match_json_field key s =
     (if prefix key s
      then (let rest = drop (length key) s;
                sp = takeWhile is_space rest
            in case drop (length sp) rest of
                 [] \<Rightarrow> None
               | q # after \<Rightarrow>
                   if q = dquote
                   then (let v = takeWhile not_dquote after
                         in if v = [] then None
                            else (case drop (length v) after of
                                    [] \<Rightarrow> None
                                  | _ # _ \<Rightarrow> Some (length key + length sp + 1 + length v + 1)))
                   else None)
      else None)"

definition access_key :: string where
  "access_key = dquote # ''access_token'' @ [dquote] @ '':''"

definition refresh_key :: string where
  "refresh_key = dquote # ''refresh_token'' @ [dquote] @ '':''"

definition access_json_marker :: string where
  "access_json_marker = access_key @ '' '' @ [dquote] @ ''[REDACTED]'' @ [dquote]"

definition refresh_json_marker :: string where
  "refresh_json_marker = refresh_key @ '' '' @ [dquote] @ ''[REDACTED]'' @ [dquote]"

definition mask_access :: "string \<Rightarrow> string" where
  "mask_access = replace_all (match_prefixed ''sk-ant-'') ''[ACCESS_TOKEN_REDACTED]''"

definition mask_refresh :: "string \<Rightarrow> string" where
  "mask_refresh = replace_all (match_prefixed ''refresh_'') ''[REFRESH_TOKEN_REDACTED]''"

definition mask_access_json :: "string \<Rightarrow> string" where
  "mask_access_json = replace_all (match_json_field access_key) access_json_marker"

definition mask_refresh_json :: "string \<Rightarrow> string" where
  "mask_refresh_json = replace_all (match_json_field refresh_key) refresh_json_marker"

text \<open>
  \<^verbatim>\<open>
  private static maskSensitiveData(data: string): string {
    return data
      .replace(/sk-ant-[a-zA-Z0-9_-]+/g, "[ACCESS_TOKEN_REDACTED]")
      .replace(/refresh_[a-zA-Z0-9_-]+/g, "[REFRESH_TOKEN_REDACTED]")
      .replace(/"access_token":\s*"[^"]+"/g, '"access_token": "[REDACTED]"')
      .replace(/"refresh_token":\s*"[^"]+"/g, '"refresh_token": "[REDACTED]"');
  }
  \<close>
\<close>

definition maskSensitiveData :: "string \<Rightarrow> string" where
  "maskSensitiveData data =
     mask_refresh_json (mask_access_json (mask_refresh (mask_access data)))"

text \<open>
  A string is unmatched by an expression when the expression matches at none of its
  positions: the scan of \<open>replace_all\<close> then copies it unchanged.
\<close>

definition unmatched :: "(string \<Rightarrow> nat option) \<Rightarrow> string \<Rightarrow> bool" where
  "unmatched m s = list_all (\<lambda>t. m t = None) (suffixes s)"

text \<open>
  \<open>sanitizeErrorMessage(error: any)\<close> is given a string or an error object (its name and
  message), or nothing. \<open>error.message || error.toString()\<close> is the message when it is not
  empty; a string has no \<open>message\<close> and converts to itself; an error object with an empty
  message converts to its name.
\<close>

datatype thrown = StringValue string | ErrorObject string string

fun sanitizeErrorMessage :: "thrown option \<Rightarrow> string" where
  "sanitizeErrorMessage None = ''Unknown error''"
| "sanitizeErrorMessage (Some (StringValue s)) =
     (if s = [] then ''Unknown error'' else mask_refresh (mask_access s))"
| "sanitizeErrorMessage (Some (ErrorObject name msg)) =
     mask_refresh (mask_access (if msg = [] then name else msg))"

section \<open>OAuth token refresh\<close>

subsection \<open>\<open>isTokenExpired\<close>\<close>

text \<open>
  \<^verbatim>\<open>
  export function isTokenExpired(expiresAt: number, bufferMinutes = 5): boolean {
    const now = Date.now() / 1000;
    const buffer = bufferMinutes * 60;
    return expiresAt <= (now + buffer);
  }
  \<close>
  The only thing the function takes from outside its arguments is the clock.
\<close>

definition isTokenExpired :: "int \<Rightarrow> number \<Rightarrow> number option \<Rightarrow> bool" where
  "isTokenExpired clock_ms expiresAt bufferArg =
     (let bufferMinutes = (case bufferArg of None \<Rightarrow> Num 5 | Some b \<Rightarrow> b);
          now = now_seconds clock_ms;
          buffer = num_mul bufferMinutes (Num 60)
      in num_le expiresAt (num_add now buffer))"

subsection \<open>\<open>parseInt\<close>\<close>

text \<open>
  \<open>parseInt(s)\<close> with no radix: leading white space is skipped, one sign is read, \<open>0x\<close> or
  \<open>0X\<close> selects radix 16 (10 otherwise), and the longest run of digits of the radix is the
  value. With no digit at all the result is \<open>NaN\<close>.
\<close>

definition digit_value :: "char \<Rightarrow> nat option" where
  "digit_value c =
     (let n = (of_char c :: nat)
      in if 48 \<le> n \<and> n \<le> 57 then Some (n - 48)
         else if 97 \<le> n \<and> n \<le> 122 then Some (n - 87)
         else if 65 \<le> n \<and> n \<le> 90 then Some (n - 55)
         else None)"

definition is_digit :: "nat \<Rightarrow> char \<Rightarrow> bool" where
  "is_digit radix c = (case digit_value c of None \<Rightarrow> False | Some d \<Rightarrow> d < radix)"

definition digits_value :: "nat \<Rightarrow> string \<Rightarrow> nat" where
  "digits_value radix ds = foldl (\<lambda>acc c. acc * radix + (case digit_value c of None \<Rightarrow> 0 | Some d \<Rightarrow> d)) 0 ds"

definition parseInt :: "string \<Rightarrow> number" where
  "parseInt s =
     (let s1 = dropWhile is_space s;
          negative = (case s1 of [] \<Rightarrow> False | c # _ \<Rightarrow> c = CHR ''-'');
          s2 = (case s1 of [] \<Rightarrow> [] | c # r \<Rightarrow> if c = CHR ''-'' \<or> c = CHR ''+'' then r else s1);
          hex = (take 2 s2 = ''0x'' \<or> take 2 s2 = ''0X'');
          radix = (if hex then 16 else 10);
          s3 = (if hex then drop 2 s2 else s2);
          ds = takeWhile (is_digit radix) s3
      in if ds = [] then NaN
         else Num (if negative then - of_nat (digits_value radix ds)
                   else of_nat (digits_value radix ds)))"

subsection \<open>The world outside the process\<close>

text \<open>
  What the code throws is an error value: \<open>new Error(message)\<close>, or an error the runtime
  raises (a \<open>TypeError\<close> for a method call on \<open>undefined\<close>, a rejected \<open>fetch\<close>, a body that
  is no JSON).
\<close>

datatype error = Error string | TypeError string | RuntimeError string

text \<open>
  A JSON object, as far as the code reads it: under each name a string or a number. The
  bodies considered hold, under a name the code reads, a value of the type the source
  declares for it (a string for a token, a key or an error text, a number for the
  expiry) or nothing; what is missing reads as \<open>undefined\<close>.
\<close>

datatype jval = JStr string | JNum number

type_synonym json_object = "(string \<times> jval) list"

definition field_str :: "json_object \<Rightarrow> string \<Rightarrow> string option" where
  "field_str obj name = (case map_of obj name of Some (JStr s) \<Rightarrow> Some s | _ \<Rightarrow> None)"

definition field_num :: "json_object \<Rightarrow> string \<Rightarrow> number option" where
  "field_num obj name = (case map_of obj name of Some (JNum n) \<Rightarrow> Some n | _ \<Rightarrow> None)"

text \<open>
  A request as \<open>fetch\<close> is given it; the body is the object handed to \<open>JSON.stringify\<close>.
  What \<open>fetch\<close> resolves to: it rejects, or it gives a response with \<open>ok\<close>, \<open>status\<close>,
  \<open>statusText\<close> and a body that \<open>response.json()\<close> parses or rejects.
\<close>

datatype http_method = GET | POST | PUT

record request =
  req_method :: http_method
  req_url :: string
  req_headers :: "(string \<times> string) list"
  req_body :: "json_object option"

datatype response = Rejected error | Response bool nat string "error + json_object"

text \<open>
  The world of one run: the two clock readings the code can take, the network, libsodium
  (loading it, and the sealed box of a value under a key; either may be \<open>undefined\<close> at
  run time), the runtime's conversion of a number to a string, and whether
  \<open>core.summary.write()\<close> succeeds.
\<close>

record world =
  clock_check :: int
  clock_exchange :: int
  fetch :: "request \<Rightarrow> response"
  sodium_ready :: "error option"
  seal :: "string option \<Rightarrow> string option \<Rightarrow> error + string"
  number_to_string :: "number \<Rightarrow> string"
  summary_write :: "error option"

text \<open>
  What a run does to the outside: the console lines (the stream, the text, and the error
  object printed after it, if any), the requests sent, the step outputs set and the
  summary text added.
\<close>

datatype stream = LOG | WARN | ERROR

record effects =
  console :: "(stream \<times> string \<times> error option) list"
  requests :: "request list"
  outputs :: "(string \<times> string) list"
  summary :: "string list"

definition no_effects :: effects where
  "no_effects = \<lparr>console = [], requests = [], outputs = [], summary = []\<rparr>"

definition say :: "stream \<Rightarrow> string \<Rightarrow> error option \<Rightarrow> effects \<Rightarrow> effects" where
  "say st text err fx = fx\<lparr>console := console fx @ [(st, text, err)]\<rparr>"

definition send :: "request \<Rightarrow> effects \<Rightarrow> effects" where
  "send r fx = fx\<lparr>requests := requests fx @ [r]\<rparr>"

text \<open>A template literal prints \<open>undefined\<close> for an undefined value; a status in decimal.\<close>

definition interpolate :: "string option \<Rightarrow> string" where
  "interpolate v = (case v of None \<Rightarrow> ''undefined'' | Some s \<Rightarrow> s)"

fun show_nat :: "nat \<Rightarrow> string" where
  "show_nat n =
     (if n < 10 then [''0123456789'' ! n]
      else show_nat (n div 10) @ [''0123456789'' ! (n mod 10)])"

text \<open>
  The literals of console messages that hold a character outside ASCII are written with
  the UTF-8 bytes of that character.
\<close>

definition emoji_refresh :: string where
  "emoji_refresh = [CHR 0xF0, CHR 0x9F, CHR 0x94, CHR 0x84]"

definition emoji_check :: string where
  "emoji_check = [CHR 0xE2, CHR 0x9C, CHR 0x85]"

definition emoji_warning :: string where
  "emoji_warning = [CHR 0xE2, CHR 0x9A, CHR 0xA0, CHR 0xEF, CHR 0xB8, CHR 0x8F]"

definition emoji_cross :: string where
  "emoji_cross = [CHR 0xE2, CHR 0x9D, CHR 0x8C]"

definition emoji_lock :: string where
  "emoji_lock = [CHR 0xF0, CHR 0x9F, CHR 0x94, CHR 0x90]"

subsection \<open>\<open>refreshOAuthToken\<close>\<close>

text \<open>
  The result of an exchange (\<open>RefreshTokenResponse\<close>). The access token is whatever the
  body holds, so it is \<open>undefined\<close> when the provider omits it.
\<close>

record refresh_token_response =
  access_token :: "string option"
  refresh_token :: string
  expires_at :: number

definition token_request :: "string \<Rightarrow> request" where
  "token_request refreshToken =
     \<lparr>req_method = POST,
      req_url = ''https://claude.ai/api/oauth/token'',
      req_headers = [(''Content-Type'', ''application/json'')],
      req_body = Some [(''grant_type'', JStr ''refresh_token''),
                       (''refresh_token'', JStr refreshToken)]\<rparr>"

text \<open>
  \<^verbatim>\<open>
  if (!response.ok) {
    const errorData = await response.json().catch(() => ({})) as any;
    throw new Error(`Token refresh failed: ${response.status} ${response.statusText} - ${
        errorData.error || "Unknown error"}`);
  }
  const data = await response.json() as any;
  return {
    access_token: data.access_token,
    refresh_token: data.refresh_token || refreshToken,
    expires_at: data.expires_at || (Date.now() / 1000 + 3600),
  };
  \<close>
\<close>

definition refreshOAuthToken ::
  "world \<Rightarrow> string \<Rightarrow> effects \<Rightarrow> (error + refresh_token_response) \<times> effects" where
  "refreshOAuthToken w refreshToken fx0 =
     (let fx = send (token_request refreshToken) fx0
      in case fetch w (token_request refreshToken) of
           Rejected e \<Rightarrow> (Inl e, fx)
         | Response ok status statusText body \<Rightarrow>
             if ok
             then (case body of
                     Inl e \<Rightarrow> (Inl e, fx)
                   | Inr data \<Rightarrow>
                       (Inr \<lparr>access_token = field_str data ''access_token'',
                             refresh_token =
                               (if truthy_string (field_str data ''refresh_token'')
                                then interpolate (field_str data ''refresh_token'')
                                else refreshToken),
                             expires_at =
                               (case field_num data ''expires_at'' of
                                  None \<Rightarrow> num_add (now_seconds (clock_exchange w)) (Num 3600)
                                | Some n \<Rightarrow>
                                    if truthy_number n then n
                                    else num_add (now_seconds (clock_exchange w)) (Num 3600))\<rparr>,
                        fx))
             else (let errorData = (case body of Inl _ \<Rightarrow> [] | Inr obj \<Rightarrow> obj);
                       reason = (if truthy_string (field_str errorData ''error'')
                                 then interpolate (field_str errorData ''error'')
                                 else ''Unknown error'')
                   in (Inl (Error (''Token refresh failed: '' @ show_nat status @ '' ''
                                   @ statusText @ '' - '' @ reason)), fx)))"

subsection \<open>\<open>updateGitHubSecrets\<close>\<close>

text \<open>\<open>`https://api.github.com/repos/${owner}/${repo}`\<close>\<close>

definition repo_url :: "string option \<Rightarrow> string option \<Rightarrow> string" where
  "repo_url owner repo =
     ''https://api.github.com/repos/'' @ interpolate owner @ ''/'' @ interpolate repo"

definition github_headers :: "string \<Rightarrow> (string \<times> string) list" where
  "github_headers githubToken =
     [(''Authorization'', ''Bearer '' @ githubToken),
      (''Accept'', ''application/vnd.github+json'')]"

definition public_key_request :: "string \<Rightarrow> string \<Rightarrow> request" where
  "public_key_request baseUrl githubToken =
     \<lparr>req_method = GET,
      req_url = baseUrl @ ''/actions/secrets/public-key'',
      req_headers = github_headers githubToken,
      req_body = None\<rparr>"

definition secret_request ::
  "string \<Rightarrow> string \<Rightarrow> string \<Rightarrow> string \<Rightarrow> string option \<Rightarrow> request" where
  "secret_request baseUrl githubToken name encryptedValue key_id =
     \<lparr>req_method = PUT,
      req_url = baseUrl @ ''/actions/secrets/'' @ name,
      req_headers = github_headers githubToken @ [(''Content-Type'', ''application/json'')],
      req_body = Some ((''encrypted_value'', JStr encryptedValue)
                       # (case key_id of None \<Rightarrow> [] | Some k \<Rightarrow> [(''key_id'', JStr k)]))\<rparr>"

text \<open>
  The loop over \<open>Object.entries(secrets)\<close>: each value is sealed, then sent; the first
  failure throws and leaves the later fields unsent.
\<close>

fun update_each ::
  "world \<Rightarrow> string \<Rightarrow> string \<Rightarrow> string option \<Rightarrow> string option
     \<Rightarrow> (string \<times> string option) list \<Rightarrow> effects \<Rightarrow> (error + unit) \<times> effects" where
  "update_each w baseUrl githubToken key key_id [] fx = (Inr (), fx)"
| "update_each w baseUrl githubToken key key_id ((name, v) # rest) fx =
     (case seal w key v of
        Inl e \<Rightarrow> (Inl e, fx)
      | Inr encryptedValue \<Rightarrow>
          (let r = secret_request baseUrl githubToken name encryptedValue key_id;
               fx1 = send r fx
           in case fetch w r of
                Rejected e \<Rightarrow> (Inl e, fx1)
              | Response ok status statusText body \<Rightarrow>
                  if ok then update_each w baseUrl githubToken key key_id rest fx1
                  else (Inl (Error (''Failed to update secret '' @ name @ '': '' @ statusText)),
                        fx1)))"

definition updateGitHubSecrets ::
  "world \<Rightarrow> string \<Rightarrow> string option \<Rightarrow> string option \<Rightarrow> refresh_token_response
     \<Rightarrow> effects \<Rightarrow> (error + unit) \<times> effects" where
  "updateGitHubSecrets w githubToken owner repo tokens fx0 =
     (let baseUrl = repo_url owner repo;
          fx = send (public_key_request baseUrl githubToken) fx0
      in case fetch w (public_key_request baseUrl githubToken) of
           Rejected e \<Rightarrow> (Inl e, fx)
         | Response ok status statusText body \<Rightarrow>
             if ok
             then (case body of
                     Inl e \<Rightarrow> (Inl e, fx)
                   | Inr obj \<Rightarrow>
                       (case sodium_ready w of
                          Some e \<Rightarrow> (Inl e, fx)
                        | None \<Rightarrow>
                            (case update_each w baseUrl githubToken
                                    (field_str obj ''key'') (field_str obj ''key_id'')
                                    [(''CLAUDE_ACCESS_TOKEN'', access_token tokens),
                                     (''CLAUDE_REFRESH_TOKEN'', Some (refresh_token tokens)),
                                     (''CLAUDE_EXPIRES_AT'',
                                        Some (number_to_string w (expires_at tokens)))]
                                    fx of
                               (Inl e, fx1) \<Rightarrow> (Inl e, fx1)
                             | (Inr u, fx1) \<Rightarrow>
                                 (Inr (),
                                  say LOG (emoji_check @ '' GitHub secrets updated successfully'')
                                    None fx1))))
             else (Inl (Error (''Failed to get public key: '' @ statusText)), fx))"

subsection \<open>\<open>handleOAuthTokenRefresh\<close>\<close>

text \<open>The environment variables the orchestrator reads; \<open>None\<close> is an unset variable.\<close>

record env =
  CLAUDE_ACCESS_TOKEN :: "string option"
  CLAUDE_REFRESH_TOKEN :: "string option"
  CLAUDE_EXPIRES_AT :: "string option"
  GITHUB_TOKEN :: "string option"
  GITHUB_REPOSITORY :: "string option"

text \<open>\<open>s.split("/")\<close>, and the destructuring \<open>[owner, repo]\<close> of its result.\<close>

fun split_on :: "char \<Rightarrow> string \<Rightarrow> string list" where
  "split_on sep [] = [[]]"
| "split_on sep (c # cs) =
     (if c = sep then [] # split_on sep cs
      else (case split_on sep cs of
              [] \<Rightarrow> [[c]]
            | p # ps \<Rightarrow> (c # p) # ps))"

definition element :: "string list \<Rightarrow> nat \<Rightarrow> string option" where
  "element xs i = (if i < length xs then Some (xs ! i) else None)"

text \<open>
  The handler of a failed propagation:
  \<^verbatim>\<open>
  console.warn("... Failed to update GitHub secrets automatically:", error);
  console.log("Please update the following secrets manually:");
  console.log(`CLAUDE_ACCESS_TOKEN: [REDACTED - ${newTokens.access_token.substring(0, 8)}...]`);
  console.log(`CLAUDE_REFRESH_TOKEN: [REDACTED - ${newTokens.refresh_token.substring(0, 8)}...]`);
  console.log(`CLAUDE_EXPIRES_AT: ${newTokens.expires_at}`);
  console.log("Check the action summary for secure access to new tokens.");
  \<close>
  A method call on an undefined access token throws inside the handler.
\<close>

definition manual_update_instructions ::
  "world \<Rightarrow> refresh_token_response \<Rightarrow> error \<Rightarrow> effects \<Rightarrow> (error + unit) \<times> effects" where
  "manual_update_instructions w newTokens err fx0 =
     (let fx1 = say WARN (emoji_warning @ '' Failed to update GitHub secrets automatically:'')
                  (Some err) fx0;
          fx2 = say LOG ''Please update the following secrets manually:'' None fx1
      in case access_token newTokens of
           None \<Rightarrow> (Inl (TypeError ''newTokens.access_token is undefined''), fx2)
         | Some a \<Rightarrow>
             (let fx3 = say LOG (''CLAUDE_ACCESS_TOKEN: [REDACTED - '' @ substring a 0 8 @ ''...]'')
                          None fx2;
                  fx4 = say LOG (''CLAUDE_REFRESH_TOKEN: [REDACTED - ''
                                 @ substring (refresh_token newTokens) 0 8 @ ''...]'') None fx3;
                  fx5 = say LOG (''CLAUDE_EXPIRES_AT: ''
                                 @ number_to_string w (expires_at newTokens)) None fx4;
                  fx6 = say LOG ''Check the action summary for secure access to new tokens.''
                          None fx5
              in (Inr (), fx6)))"

text \<open>
  \<^verbatim>\<open>
  if (githubToken && repository) {
    const [owner, repo] = repository.split("/");
    try { await updateGitHubSecrets(githubToken!, owner!, repo!, newTokens); }
    catch (error) { ... }
  }
  \<close>
\<close>

definition propagate ::
  "world \<Rightarrow> env \<Rightarrow> refresh_token_response \<Rightarrow> effects \<Rightarrow> (error + unit) \<times> effects" where
  "propagate w e newTokens fx =
     (if truthy_string (GITHUB_TOKEN e) \<and> truthy_string (GITHUB_REPOSITORY e)
      then (let parts = split_on CHR ''/'' (interpolate (GITHUB_REPOSITORY e))
            in case updateGitHubSecrets w (interpolate (GITHUB_TOKEN e))
                      (element parts 0) (element parts 1) newTokens fx of
                 (Inr u, fx1) \<Rightarrow> (Inr (), fx1)
               | (Inl err, fx1) \<Rightarrow> manual_update_instructions w newTokens err fx1)
      else (Inr (), fx))"

definition newline :: string where
  "newline = [CHR 0x0A]"

definition summary_text :: "world \<Rightarrow> string \<Rightarrow> refresh_token_response \<Rightarrow> string" where
  "summary_text w a newTokens =
     newline @ ''      <details>''
     @ newline @ ''      <summary>'' @ emoji_lock
       @ '' Refreshed OAuth Tokens (Secure Access)</summary>''
     @ newline
     @ newline @ ''      **Access Token**: `'' @ substring a 0 12 @ ''...[MASKED]`''
     @ newline @ ''      **Refresh Token**: `'' @ substring (refresh_token newTokens) 0 12
       @ ''...[MASKED]`''
     @ newline @ ''      **Expires At**: `'' @ number_to_string w (expires_at newTokens) @ ''`''
     @ newline
     @ newline @ ''      '' @ emoji_warning
       @ '' **Security Note**: Full tokens are automatically stored in repository secrets.''
     @ newline @ ''      Never copy these values to unsecured locations.''
     @ newline @ ''      </details>''
     @ newline @ ''    ''"

text \<open>
  \<^verbatim>\<open>
  core.setOutput("token_refreshed", "true");
  core.setOutput("claude_expires_at", newTokens.expires_at.toString());
  core.summary.addRaw(`...`);
  await core.summary.write();
  return { access_token: ..., refresh_token: ..., expires_at: ... };
  \<close>
\<close>

definition report ::
  "world \<Rightarrow> refresh_token_response \<Rightarrow> effects
     \<Rightarrow> (error + refresh_token_response option) \<times> effects" where
  "report w newTokens fx0 =
     (let fx1 = fx0\<lparr>outputs := outputs fx0
                   @ [(''token_refreshed'', ''true''),
                      (''claude_expires_at'', number_to_string w (expires_at newTokens))]\<rparr>
      in case access_token newTokens of
           None \<Rightarrow> (Inl (TypeError ''newTokens.access_token is undefined''), fx1)
         | Some a \<Rightarrow>
             (let fx2 = fx1\<lparr>summary := summary fx1 @ [summary_text w a newTokens]\<rparr>
              in case summary_write w of
                   Some err \<Rightarrow> (Inl err, fx2)
                 | None \<Rightarrow>
                     (Inr (Some \<lparr>access_token = access_token newTokens,
                                  refresh_token = refresh_token newTokens,
                                  expires_at = expires_at newTokens\<rparr>), fx2)))"

text \<open>The body of the outer \<open>try\<close>.\<close>

definition refresh_steps ::
  "world \<Rightarrow> env \<Rightarrow> effects \<Rightarrow> (error + refresh_token_response option) \<times> effects" where
  "refresh_steps w e fx0 =
     (if truthy_string (CLAUDE_ACCESS_TOKEN e) \<and> truthy_string (CLAUDE_REFRESH_TOKEN e)
         \<and> truthy_string (CLAUDE_EXPIRES_AT e)
      then (let expiresAtNumber = parseInt (interpolate (CLAUDE_EXPIRES_AT e))
            in if isTokenExpired (clock_check w) expiresAtNumber None
               then (case refreshOAuthToken w (interpolate (CLAUDE_REFRESH_TOKEN e))
                            (say LOG (emoji_refresh
                                      @ '' Token expired or expiring soon, refreshing...'')
                               None fx0) of
                       (Inl err, fx1) \<Rightarrow> (Inl err, fx1)
                     | (Inr newTokens, fx1) \<Rightarrow>
                         (case propagate w e newTokens
                                 (say LOG (emoji_check @ '' Token refreshed successfully'')
                                    None fx1) of
                            (Inl err, fx2) \<Rightarrow> (Inl err, fx2)
                          | (Inr u, fx2) \<Rightarrow> report w newTokens fx2))
               else (Inr (Some \<lparr>access_token = CLAUDE_ACCESS_TOKEN e,
                                refresh_token = interpolate (CLAUDE_REFRESH_TOKEN e),
                                expires_at = expiresAtNumber\<rparr>),
                     say LOG ''Token is still valid, no refresh needed'' None fx0))
      else (Inr None, say LOG ''OAuth tokens not found, skipping refresh'' None fx0))"

text \<open>
  \<^verbatim>\<open>
  try { ... } catch (error) { console.error("... Token refresh failed:", error); throw error; }
  \<close>
  The result is \<open>Inl\<close> of what the run throws, or \<open>Inr\<close> of what it returns (\<open>None\<close> for
  \<open>null\<close>), with what it did to the outside.
\<close>

definition handleOAuthTokenRefresh ::
  "world \<Rightarrow> env \<Rightarrow> (error + refresh_token_response option) \<times> effects" where
  "handleOAuthTokenRefresh w e =
     (case refresh_steps w e no_effects of
        (Inl err, fx) \<Rightarrow> (Inl err, say ERROR (emoji_cross @ '' Token refresh failed:'') (Some err) fx)
      | (Inr r, fx) \<Rightarrow> (Inr r, fx))"

subsection \<open>Sample worlds\<close>

text \<open>
  Concrete worlds for the closed statements below. Their numbers are integers, which
  convert to their decimal digits.
\<close>

definition sample_number_to_string :: "number \<Rightarrow> string" where
  "sample_number_to_string n =
     (case n of
        NaN \<Rightarrow> ''NaN''
      | Num r \<Rightarrow> (if r < 0 then ''-'' else []) @ show_nat (nat \<bar>\<lfloor>r\<rfloor>\<bar>))"

definition sample_seal :: "string option \<Rightarrow> string option \<Rightarrow> error + string" where
  "sample_seal key v = Inr (''sealed:'' @ interpolate v)"

text \<open>
  A provider that answers the exchange with the given body, and a secret store that
  refuses every request with \<open>403 Forbidden\<close>.
\<close>

definition store_refuses :: "json_object \<Rightarrow> request \<Rightarrow> response" where
  "store_refuses token_body r =
     (if req_url r = ''https://claude.ai/api/oauth/token''
      then Response True 200 ''OK'' (Inr token_body)
      else Response False 403 ''Forbidden'' (Inr []))"

definition sample_world :: "json_object \<Rightarrow> world" where
  "sample_world token_body =
     \<lparr>clock_check = 1000000,
      clock_exchange = 1000000,
      fetch = store_refuses token_body,
      sodium_ready = None,
      seal = sample_seal,
      number_to_string = sample_number_to_string,
      summary_write = None\<rparr>"

text \<open>A world without a network: every request is rejected.\<close>

definition offline_world :: world where
  "offline_world =
     \<lparr>clock_check = 1000000,
      clock_exchange = 1000000,
      fetch = (\<lambda>r. Rejected (RuntimeError ''fetch failed'')),
      sodium_ready = None,
      seal = sample_seal,
      number_to_string = sample_number_to_string,
      summary_write = None\<rparr>"

definition sample_env :: "string \<Rightarrow> env" where
  "sample_env expiry =
     \<lparr>CLAUDE_ACCESS_TOKEN = Some ''sk-ant-REDACTED'',
      CLAUDE_REFRESH_TOKEN = Some ''refresh_old-token-0001'',
      CLAUDE_EXPIRES_AT = Some expiry,
      GITHUB_TOKEN = Some ''ghs_token'',
      GITHUB_REPOSITORY = Some ''octo/repo''\<rparr>"

section \<open>Properties\<close>

subsection \<open>\<open>maskToken\<close>\<close>

text \<open>
  C10. A token that is empty or no longer than the visible-characters count (8 when the
  argument is omitted) is masked to the fixed string \<open>[REDACTED]\<close>, which holds nothing
  of the token; a longer token is masked, with the default count, to exactly its first
  8 characters followed by \<open>...[MASKED]\<close>.
\<close>

theorem maskToken_cases:
  "(token = [] \<or> int (length token) \<le> (case visible of None \<Rightarrow> 8 | Some v \<Rightarrow> v)
      \<longrightarrow> maskToken token visible = ''[REDACTED]'')
   \<and> (8 < length token \<longrightarrow> maskToken token None = take 8 token @ ''...[MASKED]'')"
  by (auto simp: maskToken_def substring_def Let_def split: option.splits)

theorem maskToken_cases_witness:
  "maskToken [] None = ''[REDACTED]''
   \<and> maskToken ''sk-ant'' None = ''[REDACTED]''
   \<and> maskToken ''abcdefgh'' None = ''[REDACTED]''
   \<and> maskToken ''abcdefghij'' (Some 10) = ''[REDACTED]''
   \<and> maskToken ''sk-ant-0123456789abcdef'' None = ''sk-ant-0...[MASKED]''"
  using maskToken_cases [of "[]" None]
        maskToken_cases [of "''sk-ant''" None]
        maskToken_cases [of "''abcdefgh''" None]
        maskToken_cases [of "''abcdefghij''" "Some 10"]
        maskToken_cases [of "''sk-ant-0123456789abcdef''" None]
  by simp

subsection \<open>The rate limiter\<close>

lemma calls_last_permitted_aux:
  "calls st ts = (rs, st') \<Longrightarrow> lastRefresh st' = last_permitted (lastRefresh st) (zip ts rs)"
proof (induction ts arbitrary: st rs st')
  case Nil
  then show ?case by simp
next
  case (Cons t ts)
  obtain r st1 where c: "canRefresh t st = (r, st1)" by (cases "canRefresh t st")
  obtain rs1 st2 where d: "calls st1 ts = (rs1, st2)" by (cases "calls st1 ts")
  from Cons.prems c d have e: "rs = r # rs1" "st' = st2" by auto
  from Cons.IH [OF d] have "lastRefresh st2 = last_permitted (lastRefresh st1) (zip ts rs1)" .
  moreover from c have "lastRefresh st1 = (if r then t else lastRefresh st)"
    by (auto simp: canRefresh_def split: if_splits)
  ultimately show ?case using e by simp
qed

lemma calls_last_permitted:
  "lastRefresh (snd (calls st ts)) = last_permitted (lastRefresh st) (zip ts (fst (calls st ts)))"
  using calls_last_permitted_aux [of st ts "fst (calls st ts)" "snd (calls st ts)"] by simp

text \<open>
  C6. After any sequence of calls, the gating check answers \<open>false\<close> and leaves the state
  as it is when less than 60 seconds (60000 ms) have passed since the last permitted call
  (the initial stamp, if none was permitted); otherwise it answers \<open>true\<close> and stamps the
  current time. In particular a call within the interval after a permitted call is
  refused without a change of state, and a call once the interval has passed is
  permitted.
\<close>

theorem canRefresh_gate:
  "(now - last_permitted (lastRefresh st0) (zip ts (fst (calls st0 ts))) < 60000
      \<longrightarrow> canRefresh now (snd (calls st0 ts)) = (False, snd (calls st0 ts)))
   \<and> (60000 \<le> now - last_permitted (lastRefresh st0) (zip ts (fst (calls st0 ts)))
      \<longrightarrow> canRefresh now (snd (calls st0 ts))
          = (True, (snd (calls st0 ts))\<lparr>lastRefresh := now\<rparr>))
   \<and> (fst (canRefresh t1 st) \<and> t2 - t1 < 60000
      \<longrightarrow> canRefresh t2 (snd (canRefresh t1 st)) = (False, snd (canRefresh t1 st)))
   \<and> (fst (canRefresh t1 st) \<and> 60000 \<le> t3 - t1
      \<longrightarrow> fst (canRefresh t3 (snd (canRefresh t1 st))))"
  using calls_last_permitted [of st0 ts]
  by (auto simp: canRefresh_def MIN_INTERVAL_def)

theorem canRefresh_gate_witness:
  "calls rate_limit_init [100000, 130000, 159999, 160000, 170000]
     = ([True, False, False, True, False], \<lparr>lastRefresh = 160000\<rparr>)
   \<and> canRefresh 219999 \<lparr>lastRefresh = 160000\<rparr> = (False, \<lparr>lastRefresh = 160000\<rparr>)
   \<and> canRefresh 220000 \<lparr>lastRefresh = 160000\<rparr> = (True, \<lparr>lastRefresh = 220000\<rparr>)
   \<and> canRefresh 100000 rate_limit_init = (True, \<lparr>lastRefresh = 100000\<rparr>)
   \<and> canRefresh 130000 \<lparr>lastRefresh = 100000\<rparr> = (False, \<lparr>lastRefresh = 100000\<rparr>)
   \<and> fst (canRefresh 160000 \<lparr>lastRefresh = 100000\<rparr>)"
  using canRefresh_gate [of 219999 rate_limit_init "[100000, 130000, 159999, 160000, 170000]"
                            100000 rate_limit_init 130000 160000]
        canRefresh_gate [of 220000 rate_limit_init "[100000, 130000, 159999, 160000, 170000]"
                            100000 rate_limit_init 130000 160000]
  by (simp add: canRefresh_def MIN_INTERVAL_def rate_limit_init_def)

subsection \<open>The expiry evaluator\<close>


subsection \<open>The token exchanger\<close>

text \<open>
  C4. When the provider's answer to the exchange holds no new refresh token, the result
  of the exchange carries the refresh token that was passed in.
\<close>

theorem refresh_token_reused:
  "fetch w (token_request rt) = Response True status statusText (Inr data)
   \<Longrightarrow> field_str data ''refresh_token'' = None
   \<Longrightarrow> \<exists>r. fst (refreshOAuthToken w rt fx) = Inr r \<and> refresh_token r = rt"
  by (simp add: refreshOAuthToken_def Let_def)

theorem refresh_token_reused_witness:
  "\<exists>r. fst (refreshOAuthToken
              (sample_world [(''access_token'', JStr ''sk-ant-REDACTED'')])
              ''refresh_old-token-0001'' no_effects) = Inr r
       \<and> refresh_token r = ''refresh_old-token-0001''"
  using refresh_token_reused
    [of "sample_world [(''access_token'', JStr ''sk-ant-REDACTED'')]"
        "''refresh_old-token-0001''" 200 "''OK''"
        "[(''access_token'', JStr ''sk-ant-REDACTED'')]" no_effects]
  by (simp add: sample_world_def store_refuses_def token_request_def field_str_def)

text \<open>
  C5. When the provider's answer holds no expiry, the exchange gives \<open>now + 3600\<close> seconds,
  and the expiry evaluator, read at the same clock with the 5-minute buffer (given or
  by default), finds the result not expired.
\<close>

theorem default_expiry_not_expired:
  "fetch w (token_request rt) = Response True status statusText (Inr data)
   \<Longrightarrow> field_num data ''expires_at'' = None
   \<Longrightarrow> \<exists>r. fst (refreshOAuthToken w rt fx) = Inr r
         \<and> expires_at r = Num (of_int (clock_exchange w) / 1000 + 3600)
         \<and> \<not> isTokenExpired (clock_exchange w) (expires_at r) (Some (Num 5))
         \<and> \<not> isTokenExpired (clock_exchange w) (expires_at r) None"
  by (simp add: refreshOAuthToken_def Let_def isTokenExpired_def now_seconds_def)

theorem default_expiry_not_expired_witness:
  "\<exists>r. fst (refreshOAuthToken
              (sample_world [(''access_token'', JStr ''sk-ant-REDACTED'')])
              ''refresh_old-token-0001'' no_effects) = Inr r
       \<and> expires_at r = Num 4600
       \<and> \<not> isTokenExpired 1000000 (expires_at r) (Some (Num 5))
       \<and> \<not> isTokenExpired 1000000 (expires_at r) None"
  using default_expiry_not_expired
    [of "sample_world [(''access_token'', JStr ''sk-ant-REDACTED'')]"
        "''refresh_old-token-0001''" 200 "''OK''"
        "[(''access_token'', JStr ''sk-ant-REDACTED'')]" no_effects]
  by (simp add: sample_world_def store_refuses_def token_request_def field_num_def)

subsection \<open>The secret propagator\<close>

text \<open>
  C7. When fetching the store's public key fails (a response that is not \<open>ok\<close>, or a
  rejected request), the propagator throws, and the only request it has sent is that
  \<open>GET\<close>: no secret is written.
\<close>

theorem key_fetch_failure_aborts:
  "(fetch w (public_key_request (repo_url owner repo) githubToken)
      = Response False status statusText body
    \<longrightarrow> updateGitHubSecrets w githubToken owner repo tokens fx
        = (Inl (Error (''Failed to get public key: '' @ statusText)),
           fx\<lparr>requests := requests fx
                 @ [public_key_request (repo_url owner repo) githubToken]\<rparr>))
   \<and> (fetch w (public_key_request (repo_url owner repo) githubToken) = Rejected err
    \<longrightarrow> updateGitHubSecrets w githubToken owner repo tokens fx
        = (Inl err,
           fx\<lparr>requests := requests fx
                 @ [public_key_request (repo_url owner repo) githubToken]\<rparr>))
   \<and> req_method (public_key_request (repo_url owner repo) githubToken) = GET"
  by (simp add: updateGitHubSecrets_def Let_def send_def public_key_request_def)

theorem key_fetch_failure_aborts_witness:
  "updateGitHubSecrets (sample_world []) ''ghs_token'' (Some ''octo'') (Some ''repo'')
      \<lparr>access_token = Some ''sk-ant-REDACTED'',
       refresh_token = ''refresh_new-token-0002'', expires_at = Num 4600\<rparr> no_effects
     = (Inl (Error ''Failed to get public key: Forbidden''),
        \<lparr>console = [],
         requests =
           [\<lparr>req_method = GET,
             req_url = ''https://api.github.com/repos/octo/repo/actions/secrets/public-key'',
             req_headers = [(''Authorization'', ''Bearer ghs_token''),
                            (''Accept'', ''application/vnd.github+json'')],
             req_body = None\<rparr>],
         outputs = [], summary = []\<rparr>)
   \<and> updateGitHubSecrets offline_world ''ghs_token'' (Some ''octo'') (Some ''repo'')
      \<lparr>access_token = Some ''sk-ant-REDACTED'',
       refresh_token = ''refresh_new-token-0002'', expires_at = Num 4600\<rparr> no_effects
     = (Inl (RuntimeError ''fetch failed''),
        \<lparr>console = [],
         requests =
           [\<lparr>req_method = GET,
             req_url = ''https://api.github.com/repos/octo/repo/actions/secrets/public-key'',
             req_headers = [(''Authorization'', ''Bearer ghs_token''),
                            (''Accept'', ''application/vnd.github+json'')],
             req_body = None\<rparr>],
         outputs = [], summary = []\<rparr>)"
  using key_fetch_failure_aborts
    [of "sample_world []" "Some ''octo''" "Some ''repo''" "''ghs_token''" 403 "''Forbidden''"
        "Inr []"
        "\<lparr>access_token = Some ''sk-ant-REDACTED'',
          refresh_token = ''refresh_new-token-0002'', expires_at = Num 4600\<rparr>" no_effects
        "RuntimeError []"]
    key_fetch_failure_aborts
    [of offline_world "Some ''octo''" "Some ''repo''" "''ghs_token''" 403 "''Forbidden''"
        "Inr []"
        "\<lparr>access_token = Some ''sk-ant-REDACTED'',
          refresh_token = ''refresh_new-token-0002'', expires_at = Num 4600\<rparr>" no_effects
        "RuntimeError ''fetch failed''"]
  by (simp add: sample_world_def offline_world_def store_refuses_def public_key_request_def
        repo_url_def interpolate_def github_headers_def no_effects_def)

subsection \<open>The orchestrator\<close>

lemmas run_defs = handleOAuthTokenRefresh_def refresh_steps_def report_def propagate_def
  manual_update_instructions_def updateGitHubSecrets_def refreshOAuthToken_def
  sample_world_def sample_env_def store_refuses_def token_request_def public_key_request_def
  repo_url_def github_headers_def interpolate_def field_str_def field_num_def say_def send_def
  no_effects_def isTokenExpired_def now_seconds_def parseInt_def is_space_def is_digit_def
  digit_value_def digits_value_def element_def substring_def sample_number_to_string_def
  Let_def

text \<open>
  Whenever the expiry is set and \<open>parseInt\<close> reads no number from it, the run returns the
  credential it was given, with the expiry \<open>NaN\<close>, and sends nothing.
\<close>

lemma nan_expiry_never_refreshed:
  assumes "truthy_string (CLAUDE_ACCESS_TOKEN e)" "truthy_string (CLAUDE_REFRESH_TOKEN e)"
    and "CLAUDE_EXPIRES_AT e = Some ex" "ex \<noteq> []" "parseInt ex = NaN"
  shows "handleOAuthTokenRefresh w e
           = (Inr (Some \<lparr>access_token = CLAUDE_ACCESS_TOKEN e,
                         refresh_token = interpolate (CLAUDE_REFRESH_TOKEN e),
                         expires_at = NaN\<rparr>),
              say LOG ''Token is still valid, no refresh needed'' None no_effects)"
  using assms
  by (simp add: handleOAuthTokenRefresh_def refresh_steps_def isTokenExpired_def Let_def
        interpolate_def)

text \<open>
  C3. The specification asks that an expiry which is set but does not parse as a number
  makes the orchestrator treat the credential as expired and go on to the exchange. The
  code does not: \<open>parseInt\<close> gives \<open>NaN\<close>, the comparison with \<open>NaN\<close> is false, and the run
  returns the old credential as still valid, its expiry \<open>NaN\<close>, without sending any
  request. An expiry that is empty is taken for a missing credential, and the run is
  skipped.
\<close>

theorem unparseable_expiry_kept_as_valid:
  "parseInt ''soon'' = NaN
   \<and> handleOAuthTokenRefresh (sample_world []) (sample_env ''soon'')
     = (Inr (Some \<lparr>access_token = Some ''sk-ant-REDACTED'',
                   refresh_token = ''refresh_old-token-0001'', expires_at = NaN\<rparr>),
        \<lparr>console = [(LOG, ''Token is still valid, no refresh needed'', None)],
         requests = [], outputs = [], summary = []\<rparr>)
   \<and> handleOAuthTokenRefresh (sample_world []) (sample_env [])
     = (Inr None,
        \<lparr>console = [(LOG, ''OAuth tokens not found, skipping refresh'', None)],
         requests = [], outputs = [], summary = []\<rparr>)"
  by (simp add: run_defs)

text \<open>
  The degraded run. When the credential is expired, the exchange gives a result with an
  access token, the propagation throws and the summary can be written, the run returns
  the result of the exchange, and its console holds, of each token, the first 8
  characters at most: a proper prefix when the token is longer than that.
\<close>

lemma exchange_result_independent:
  "refreshOAuthToken w rt fx
     = (fst (refreshOAuthToken w rt no_effects), send (token_request rt) fx)"
  by (simp add: refreshOAuthToken_def Let_def split: response.splits sum.splits)

lemma update_each_console:
  "console (snd (update_each w baseUrl githubToken key key_id xs fx)) = console fx"
proof (induction xs arbitrary: fx)
  case Nil
  then show ?case by simp
next
  case (Cons x xs)
  obtain name v where x: "x = (name, v)" by (cases x)
  show ?case
    unfolding x using Cons.IH
    by (simp add: Let_def send_def split: sum.splits response.splits)
qed

lemma updateGitHubSecrets_failure_console:
  assumes "fst (updateGitHubSecrets w githubToken owner repo tokens fx) = Inl err"
  shows "console (snd (updateGitHubSecrets w githubToken owner repo tokens fx)) = console fx"
proof -
  have "console (snd (update_each w b g k kid xs (send r fx))) = console fx" for b g k kid xs r
    unfolding update_each_console by (simp add: send_def)
  with assms show ?thesis
    by (auto simp: updateGitHubSecrets_def Let_def send_def
          split: response.splits sum.splits option.splits prod.splits if_splits)
qed

lemma degraded_run:
  assumes env: "truthy_string (CLAUDE_ACCESS_TOKEN e)" "truthy_string (CLAUDE_REFRESH_TOKEN e)"
      "truthy_string (CLAUDE_EXPIRES_AT e)"
      "truthy_string (GITHUB_TOKEN e)" "truthy_string (GITHUB_REPOSITORY e)"
    and expired: "isTokenExpired (clock_check w) (parseInt (interpolate (CLAUDE_EXPIRES_AT e))) None"
    and exchange: "fst (refreshOAuthToken w (interpolate (CLAUDE_REFRESH_TOKEN e)) no_effects) = Inr nt"
      "access_token nt = Some a"
    and store: "fst (updateGitHubSecrets w (interpolate (GITHUB_TOKEN e))
                  (element (split_on CHR ''/'' (interpolate (GITHUB_REPOSITORY e))) 0)
                  (element (split_on CHR ''/'' (interpolate (GITHUB_REPOSITORY e))) 1) nt
                  (say LOG (emoji_check @ '' Token refreshed successfully'') None
                    (send (token_request (interpolate (CLAUDE_REFRESH_TOKEN e)))
                      (say LOG (emoji_refresh @ '' Token expired or expiring soon, refreshing...'')
                         None no_effects)))) = Inl err"
    and summary: "summary_write w = None"
  shows "fst (handleOAuthTokenRefresh w e) = Inr (Some nt)"
    and "console (snd (handleOAuthTokenRefresh w e))
           = [(LOG, emoji_refresh @ '' Token expired or expiring soon, refreshing...'', None),
              (LOG, emoji_check @ '' Token refreshed successfully'', None),
              (WARN, emoji_warning @ '' Failed to update GitHub secrets automatically:'', Some err),
              (LOG, ''Please update the following secrets manually:'', None),
              (LOG, ''CLAUDE_ACCESS_TOKEN: [REDACTED - '' @ substring a 0 8 @ ''...]'', None),
              (LOG, ''CLAUDE_REFRESH_TOKEN: [REDACTED - '' @ substring (refresh_token nt) 0 8
                    @ ''...]'', None),
              (LOG, ''CLAUDE_EXPIRES_AT: '' @ number_to_string w (expires_at nt), None),
              (LOG, ''Check the action summary for secure access to new tokens.'', None)]"
proof -
  let ?fx1 = "say LOG (emoji_refresh @ '' Token expired or expiring soon, refreshing...'')
                None no_effects"
  let ?rt = "interpolate (CLAUDE_REFRESH_TOKEN e)"
  let ?fx2 = "say LOG (emoji_check @ '' Token refreshed successfully'') None
                (send (token_request ?rt) ?fx1)"
  let ?upd = "updateGitHubSecrets w (interpolate (GITHUB_TOKEN e))
                (element (split_on CHR ''/'' (interpolate (GITHUB_REPOSITORY e))) 0)
                (element (split_on CHR ''/'' (interpolate (GITHUB_REPOSITORY e))) 1) nt ?fx2"
  obtain fx3 where upd: "?upd = (Inl err, fx3)"
    using store by (cases ?upd) auto
  have c3: "console fx3 = console ?fx2"
    using updateGitHubSecrets_failure_console [OF store] upd by simp
  have ex: "refreshOAuthToken w ?rt ?fx1 = (Inr nt, send (token_request ?rt) ?fx1)"
    by (subst exchange_result_independent) (simp add: exchange)
  have steps: "refresh_steps w e no_effects
      = report w nt (snd (manual_update_instructions w nt err fx3))"
    using env expired exchange(2) upd
    by (simp add: refresh_steps_def Let_def ex propagate_def manual_update_instructions_def)
  show "fst (handleOAuthTokenRefresh w e) = Inr (Some nt)"
    unfolding handleOAuthTokenRefresh_def steps
    using exchange(2) summary by (simp add: report_def Let_def)
  show "console (snd (handleOAuthTokenRefresh w e)) = [(LOG, emoji_refresh @ '' Token expired or expiring soon, refreshing...'', None),
              (LOG, emoji_check @ '' Token refreshed successfully'', None),
              (WARN, emoji_warning @ '' Failed to update GitHub secrets automatically:'', Some err),
              (LOG, ''Please update the following secrets manually:'', None),
              (LOG, ''CLAUDE_ACCESS_TOKEN: [REDACTED - '' @ substring a 0 8 @ ''...]'', None),
              (LOG, ''CLAUDE_REFRESH_TOKEN: [REDACTED - '' @ substring (refresh_token nt) 0 8
                    @ ''...]'', None),
              (LOG, ''CLAUDE_EXPIRES_AT: '' @ number_to_string w (expires_at nt), None),
              (LOG, ''Check the action summary for secure access to new tokens.'', None)]"
    unfolding handleOAuthTokenRefresh_def steps
    using exchange(2) summary c3
    by (simp add: report_def Let_def manual_update_instructions_def say_def send_def no_effects_def)
qed

lemma long_token_prefix:
  "8 < length a \<Longrightarrow> substring a 0 8 = take 8 a \<and> take 8 a \<noteq> a"
  by (auto simp: substring_def Let_def)

text \<open>
  C8. The specification asks that when the exchange succeeds and the propagation fails,
  the run still returns the new credential and the manual-update instructions it logs
  hold only masked prefixes of the tokens, never a whole token. The run below returns the
  new credential, but its tokens are no longer than 8 characters, and the instructions
  print them whole: the handler takes \<open>substring(0, 8)\<close> without the length check that
  \<open>maskToken\<close> makes.
\<close>

theorem short_token_logged_in_full:
  "fst (handleOAuthTokenRefresh
          (sample_world [(''access_token'', JStr ''sk-ant-1''), (''refresh_token'', JStr ''rt-2''),
                         (''expires_at'', JNum (Num 2000003600))]) (sample_env ''1000''))
     = Inr (Some \<lparr>access_token = Some ''sk-ant-1'', refresh_token = ''rt-2'',
                  expires_at = Num 2000003600\<rparr>)
   \<and> drop 3 (console (snd (handleOAuthTokenRefresh
          (sample_world [(''access_token'', JStr ''sk-ant-1''), (''refresh_token'', JStr ''rt-2''),
                         (''expires_at'', JNum (Num 2000003600))]) (sample_env ''1000''))))
     = [(LOG, ''Please update the following secrets manually:'', None),
        (LOG, ''CLAUDE_ACCESS_TOKEN: [REDACTED - sk-ant-1...]'', None),
        (LOG, ''CLAUDE_REFRESH_TOKEN: [REDACTED - rt-2...]'', None),
        (LOG, ''CLAUDE_EXPIRES_AT: 2000003600'', None),
        (LOG, ''Check the action summary for secure access to new tokens.'', None)]
   \<and> maskToken ''sk-ant-1'' None = ''[REDACTED]''"
  by (simp add: run_defs maskToken_def)

subsection \<open>Masking\<close>

lemmas mask_defs = maskSensitiveData_def mask_access_def mask_refresh_def mask_access_json_def
  mask_refresh_json_def match_prefixed_def match_json_field_def access_key_def refresh_key_def
  access_json_marker_def refresh_json_marker_def is_token_char_def is_space_def dquote_def
  not_dquote_def

text \<open>
  The scan leaves a string alone when the expression matches nowhere in it. The two
  generic facts after that say when the output of a scan is unmatched by an expression:
  no match may begin inside the replacement text or reach into it from the left.
\<close>

lemma unmatched_iff: "unmatched m s \<longleftrightarrow> (\<forall>t. suffix t s \<longrightarrow> m t = None)"
  by (auto simp: unmatched_def list_all_iff)

lemma unmatched_Nil: "unmatched m [] \<longleftrightarrow> m [] = None"
  by (simp add: unmatched_def)

lemma unmatched_Cons: "unmatched m (c # s) \<longleftrightarrow> m (c # s) = None \<and> unmatched m s"
  by (auto simp: unmatched_def)

lemma unmatched_suffix: "unmatched m s \<Longrightarrow> suffix t s \<Longrightarrow> unmatched m t"
  unfolding unmatched_iff by (meson suffix_order.trans)

lemma unmatched_append:
  "unmatched m (a @ y) \<longleftrightarrow>
     unmatched m y \<and> (\<forall>a'. a' \<noteq> [] \<and> suffix a' a \<longrightarrow> m (a' @ y) = None)"
proof (induction a)
  case Nil
  then show ?case by simp
next
  case (Cons c a)
  have "(\<forall>a'. a' \<noteq> [] \<and> suffix a' (c # a) \<longrightarrow> m (a' @ y) = None)
        \<longleftrightarrow> m (c # a @ y) = None \<and> (\<forall>a'. a' \<noteq> [] \<and> suffix a' a \<longrightarrow> m (a' @ y) = None)"
    unfolding suffix_Cons by fastforce
  with Cons.IH show ?case
    unfolding append_Cons unmatched_Cons by blast
qed

lemma suffix_append_cases:
  assumes "suffix t (a @ r)"
  shows "suffix t r \<or> (\<exists>zs. zs \<noteq> [] \<and> t = zs @ r \<and> suffix zs a)"
proof (cases "suffix t r")
  case True
  then show ?thesis by simp
next
  case False
  from assms have "suffix t r \<or> (\<exists>zs. t = zs @ r \<and> suffix zs a)"
    by (simp only: suffix_append)
  with False obtain zs where zs: "t = zs @ r" "suffix zs a" by blast
  with False have "zs \<noteq> []" by auto
  with zs show ?thesis by blast
qed

lemma replace_all_unmatched: "unmatched m s \<Longrightarrow> replace_all m rep s = s"
  by (induction s) (auto simp: unmatched_Cons unmatched_Nil)

lemma replace_all_establishes:
  assumes F0: "m [] = None"
    and FZ: "\<And>x. m x \<noteq> Some 0"
    and F1: "\<And>r z. r \<noteq> [] \<Longrightarrow> suffix r rep \<Longrightarrow> m (r @ z) = None"
    and F2: "\<And>a z z'. a \<noteq> [] \<Longrightarrow> m (a @ rep @ z) \<noteq> None \<Longrightarrow> m (a @ z') \<noteq> None"
  shows "(\<forall>a'. a' \<noteq> [] \<and> suffix a' a \<longrightarrow> m (a' @ x) = None)
         \<Longrightarrow> unmatched m (a @ replace_all m rep x)"
proof (induction "length x" arbitrary: x a rule: less_induct)
  case less
  show ?case
  proof (cases x)
    case Nil
    have "unmatched m a"
      unfolding unmatched_iff
    proof (intro allI impI)
      fix t assume t: "suffix t a"
      show "m t = None"
      proof (cases "t = []")
        case True
        with F0 show ?thesis by simp
      next
        case False
        with t less.prems Nil show ?thesis by simp
      qed
    qed
    with Nil F0 show ?thesis by simp
  next
    case (Cons c cs)
    show ?thesis
    proof (cases "m x")
      case None
      have "\<forall>a'. a' \<noteq> [] \<and> suffix a' (a @ [c]) \<longrightarrow> m (a' @ cs) = None"
      proof (intro allI impI)
        fix a' assume h: "a' \<noteq> [] \<and> suffix a' (a @ [c])"
        then obtain zs where zs: "a' = zs @ [c]" "suffix zs a" by auto
        show "m (a' @ cs) = None"
        proof (cases "zs = []")
          case True
          with zs None Cons show ?thesis by simp
        next
          case False
          with zs less.prems Cons show ?thesis by simp
        qed
      qed
      from less.hyps [OF _ this] Cons have "unmatched m ((a @ [c]) @ replace_all m rep cs)"
        by simp
      with None Cons show ?thesis by simp
    next
      case (Some n)
      with FZ [of x] obtain k where k: "n = Suc k" by (cases n) auto
      let ?rest = "drop k cs"
      have "\<forall>a'. a' \<noteq> [] \<and> suffix a' (a @ rep) \<longrightarrow> m (a' @ ?rest) = None"
      proof (intro allI impI)
        fix a' assume h: "a' \<noteq> [] \<and> suffix a' (a @ rep)"
        then have "suffix a' rep \<or> (\<exists>zs. zs \<noteq> [] \<and> a' = zs @ rep \<and> suffix zs a)"
          using suffix_append_cases by blast
        then consider (inr) "suffix a' rep" | (ina) zs where "a' = zs @ rep" "suffix zs a" "zs \<noteq> []"
          by blast
        then show "m (a' @ ?rest) = None"
        proof cases
          case inr
          with h F1 show ?thesis by simp
        next
          case ina
          show ?thesis
          proof (rule ccontr)
            assume "m (a' @ ?rest) \<noteq> None"
            with ina have "m (zs @ rep @ ?rest) \<noteq> None" by simp
            from F2 [OF ina(3) this, of x] have "m (zs @ x) \<noteq> None" .
            with less.prems ina show False by simp
          qed
        qed
      qed
      from less.hyps [OF _ this] Cons have "unmatched m ((a @ rep) @ replace_all m rep ?rest)"
        by simp
      with Some k Cons show ?thesis by simp
    qed
  qed
qed

lemma replace_all_preserves:
  assumes F0: "mj [] = None"
    and FZ: "\<And>x. mj x \<noteq> Some 0"
    and F1: "\<And>r z. r \<noteq> [] \<Longrightarrow> suffix r rep \<Longrightarrow> m (r @ z) = None"
    and F2: "\<And>a z z'. a \<noteq> [] \<Longrightarrow> m (a @ rep @ z) \<noteq> None \<Longrightarrow> m (a @ z') \<noteq> None"
  shows "unmatched m (a @ x) \<Longrightarrow> unmatched m (a @ replace_all mj rep x)"
proof (induction "length x" arbitrary: x a rule: less_induct)
  case less
  show ?case
  proof (cases x)
    case Nil
    with less.prems F0 show ?thesis by simp
  next
    case (Cons c cs)
    show ?thesis
    proof (cases "mj x")
      case None
      from less.prems Cons have "unmatched m ((a @ [c]) @ cs)" by simp
      from less.hyps [OF _ this] Cons have "unmatched m ((a @ [c]) @ replace_all mj rep cs)"
        by simp
      with None Cons show ?thesis by simp
    next
      case (Some n)
      with FZ [of x] obtain k where k: "n = Suc k" by (cases n) auto
      let ?rest = "drop k cs"
      have sfx: "suffix ?rest (a @ x)"
        unfolding Cons by (intro suffix_appendI suffix_ConsI suffix_drop)
      have u_rest: "unmatched m ?rest"
        using unmatched_suffix [OF less.prems sfx] .
      have "\<forall>a'. a' \<noteq> [] \<and> suffix a' (a @ rep) \<longrightarrow> m (a' @ ?rest) = None"
      proof (intro allI impI)
        fix a' assume h: "a' \<noteq> [] \<and> suffix a' (a @ rep)"
        then have "suffix a' rep \<or> (\<exists>zs. zs \<noteq> [] \<and> a' = zs @ rep \<and> suffix zs a)"
          using suffix_append_cases by blast
        then consider (inr) "suffix a' rep" | (ina) zs where "a' = zs @ rep" "suffix zs a" "zs \<noteq> []"
          by blast
        then show "m (a' @ ?rest) = None"
        proof cases
          case inr
          with h F1 show ?thesis by simp
        next
          case ina
          show ?thesis
          proof (rule ccontr)
            assume "m (a' @ ?rest) \<noteq> None"
            with ina have "m (zs @ rep @ ?rest) \<noteq> None" by simp
            from F2 [OF ina(3) this, of x] have "m (zs @ x) \<noteq> None" .
            moreover from less.prems ina have "m (zs @ x) = None"
              by (simp add: unmatched_append)
            ultimately show False by simp
          qed
        qed
      qed
      with u_rest have "unmatched m ((a @ rep) @ ?rest)"
        using unmatched_append [of m "a @ rep" ?rest] by blast
      from less.hyps [OF _ this] Cons have "unmatched m ((a @ rep) @ replace_all mj rep ?rest)"
        by simp
      with Some k Cons show ?thesis by simp
    qed
  qed
qed

text \<open>The prefixed expressions: a match is the prefix followed by a class character.\<close>

lemma match_prefixed_iff:
  "match_prefixed pre s \<noteq> None \<longleftrightarrow> (\<exists>c rest. s = pre @ c # rest \<and> is_token_char c)"
proof
  assume h: "match_prefixed pre s \<noteq> None"
  then have p: "prefix pre s" and t: "takeWhile is_token_char (drop (length pre) s) \<noteq> []"
    by (auto simp: match_prefixed_def Let_def split: if_splits)
  from p obtain u where u: "s = pre @ u" by (auto simp: prefix_def)
  with t have "takeWhile is_token_char u \<noteq> []" by simp
  then obtain c rest where "u = c # rest" "is_token_char c"
    by (cases u) (auto split: if_splits)
  with u show "\<exists>c rest. s = pre @ c # rest \<and> is_token_char c" by blast
next
  assume "\<exists>c rest. s = pre @ c # rest \<and> is_token_char c"
  then show "match_prefixed pre s \<noteq> None"
    by (auto simp: match_prefixed_def Let_def)
qed

lemma match_prefixed_Nil: "match_prefixed pre [] = None"
  by (simp add: match_prefixed_def)

lemma match_prefixed_not_zero: "match_prefixed pre x \<noteq> Some 0"
  by (auto simp: match_prefixed_def Let_def)

lemma match_prefixed_blocked:
  assumes r0: "\<not> is_token_char r0" "r0 \<notin> set pre"
    and hit: "match_prefixed pre (a @ (r0 # r) @ z) \<noteq> None"
  shows "match_prefixed pre (a @ z') \<noteq> None"
proof -
  from hit obtain c rest where e: "a @ (r0 # r) @ z = (pre @ [c]) @ rest" and c: "is_token_char c"
    unfolding match_prefixed_iff by auto
  from e obtain us where
    "(a = (pre @ [c]) @ us \<and> us @ (r0 # r) @ z = rest) \<or> (a @ us = pre @ [c] \<and> (r0 # r) @ z = us @ rest)"
    unfolding append_eq_append_conv2 by blast
  then consider (long) "a = (pre @ [c]) @ us" | (short) "a @ us = pre @ [c]" "(r0 # r) @ z = us @ rest"
    by blast
  then show ?thesis
  proof cases
    case long
    then have "a @ z' = pre @ c # (us @ z')" by simp
    with c show ?thesis unfolding match_prefixed_iff by blast
  next
    case short
    show ?thesis
    proof (cases us)
      case Nil
      with short have "a @ z' = pre @ c # z'" by simp
      with c show ?thesis unfolding match_prefixed_iff by blast
    next
      case (Cons u us')
      with short have "u = r0" by simp
      with Cons short(1) have "r0 \<in> set (pre @ [c])"
        by (metis in_set_conv_decomp append.assoc)
      with r0 c show ?thesis by auto
    qed
  qed
qed

lemma match_prefixed_tail:
  assumes clean: "unmatched (match_prefixed pre) rep"
    and l: "\<not> is_token_char (last rep)" "last rep \<notin> set pre"
    and r: "r \<noteq> []" "suffix r rep"
  shows "match_prefixed pre (r @ z) = None"
proof (rule ccontr)
  assume "match_prefixed pre (r @ z) \<noteq> None"
  then obtain c rest where e: "r @ z = (pre @ [c]) @ rest" and c: "is_token_char c"
    unfolding match_prefixed_iff by auto
  from e obtain us where
    "(r = (pre @ [c]) @ us \<and> us @ z = rest) \<or> (r @ us = pre @ [c] \<and> z = us @ rest)"
    unfolding append_eq_append_conv2 by blast
  then consider (long) "r = (pre @ [c]) @ us" | (short) "r @ us = pre @ [c]"
    by blast
  then show False
  proof cases
    case long
    then have "r = pre @ c # us" by simp
    with c have "match_prefixed pre r \<noteq> None" unfolding match_prefixed_iff by blast
    moreover from clean r(2) have "match_prefixed pre r = None"
      unfolding unmatched_iff by blast
    ultimately show False by simp
  next
    case short
    from r have "last r = last rep" by (auto simp: suffix_def)
    moreover from r(1) have "last r \<in> set r" by simp
    then have "last r \<in> set (r @ us)" by simp
    ultimately have "last rep \<in> set (pre @ [c])" using short by simp
    with l c show False by auto
  qed
qed

lemma prefixed_established:
  assumes rep: "rep = r0 # r"
    and r0: "\<not> is_token_char r0" "r0 \<notin> set pre"
    and l: "\<not> is_token_char (last rep)" "last rep \<notin> set pre"
    and clean: "unmatched (match_prefixed pre) rep"
  shows "unmatched (match_prefixed pre) (replace_all (match_prefixed pre) rep x)"
proof -
  have "unmatched (match_prefixed pre) ([] @ replace_all (match_prefixed pre) rep x)"
  proof (rule replace_all_establishes)
    show "match_prefixed pre [] = None" by (rule match_prefixed_Nil)
    show "match_prefixed pre y \<noteq> Some 0" for y by (rule match_prefixed_not_zero)
    show "match_prefixed pre (t @ z) = None" if "t \<noteq> []" "suffix t rep" for t z
      using match_prefixed_tail [OF clean l that] .
    show "match_prefixed pre (a @ z') \<noteq> None"
      if "a \<noteq> []" "match_prefixed pre (a @ rep @ z) \<noteq> None" for a z z'
      using match_prefixed_blocked [OF r0, of a r z z'] that rep by simp
    show "\<forall>a'. a' \<noteq> [] \<and> suffix a' [] \<longrightarrow> match_prefixed pre (a' @ x) = None" by simp
  qed
  then show ?thesis by simp
qed

lemma prefixed_preserved:
  assumes rep: "rep = r0 # r"
    and r0: "\<not> is_token_char r0" "r0 \<notin> set pre"
    and l: "\<not> is_token_char (last rep)" "last rep \<notin> set pre"
    and clean: "unmatched (match_prefixed pre) rep"
    and mj: "mj [] = None" "\<And>y. mj y \<noteq> Some 0"
    and x: "unmatched (match_prefixed pre) x"
  shows "unmatched (match_prefixed pre) (replace_all mj rep x)"
proof -
  have "unmatched (match_prefixed pre) ([] @ replace_all mj rep x)"
  proof (rule replace_all_preserves)
    show "mj [] = None" by (rule mj)
    show "mj y \<noteq> Some 0" for y by (rule mj)
    show "match_prefixed pre (t @ z) = None" if "t \<noteq> []" "suffix t rep" for t z
      using match_prefixed_tail [OF clean l that] .
    show "match_prefixed pre (a @ z') \<noteq> None"
      if "a \<noteq> []" "match_prefixed pre (a @ rep @ z) \<noteq> None" for a z z'
      using match_prefixed_blocked [OF r0, of a r z z'] that rep by simp
    show "unmatched (match_prefixed pre) ([] @ x)" using x by simp
  qed
  then show ?thesis by simp
qed

lemma match_json_field_Nil: "key \<noteq> [] \<Longrightarrow> match_json_field key [] = None"
  by (simp add: match_json_field_def)

lemma match_json_field_not_zero: "match_json_field key x \<noteq> Some 0"
  by (auto simp: match_json_field_def Let_def split: list.splits)

lemma access_marker_clean:
  "unmatched (match_prefixed ''sk-ant-'') ''[ACCESS_TOKEN_REDACTED]''"
  by (simp add: unmatched_def match_prefixed_def)

lemma refresh_marker_clean:
  "unmatched (match_prefixed ''sk-ant-'') ''[REFRESH_TOKEN_REDACTED]''"
  "unmatched (match_prefixed ''refresh_'') ''[REFRESH_TOKEN_REDACTED]''"
  by (simp_all add: unmatched_def match_prefixed_def)

lemma json_marker_clean:
  "unmatched (match_prefixed ''sk-ant-'') access_json_marker"
  "unmatched (match_prefixed ''refresh_'') access_json_marker"
  by (simp_all add: unmatched_def match_prefixed_def access_json_marker_def access_key_def dquote_def)

lemma mask_access_clean: "unmatched (match_prefixed ''sk-ant-'') (mask_access s)"
  unfolding mask_access_def
  by (rule prefixed_established [where ?r0.0 = "CHR ''[''" and r = "''ACCESS_TOKEN_REDACTED]''"])
     (simp_all add: is_token_char_def access_marker_clean)

lemma mask_refresh_clean:
  "unmatched (match_prefixed ''refresh_'') (mask_refresh s)"
  unfolding mask_refresh_def
  by (rule prefixed_established [where ?r0.0 = "CHR ''[''" and r = "''REFRESH_TOKEN_REDACTED]''"])
     (simp_all add: is_token_char_def refresh_marker_clean)

lemma mask_refresh_keeps_access:
  "unmatched (match_prefixed ''sk-ant-'') s \<Longrightarrow> unmatched (match_prefixed ''sk-ant-'') (mask_refresh s)"
  unfolding mask_refresh_def
  by (rule prefixed_preserved [where ?r0.0 = "CHR ''[''" and r = "''REFRESH_TOKEN_REDACTED]''"])
     (simp_all add: is_token_char_def refresh_marker_clean match_prefixed_Nil match_prefixed_not_zero)

lemma access_json_marker_ends:
  "access_json_marker
     = dquote # (''access_token'' @ [dquote] @ '': '' @ [dquote] @ ''[REDACTED]'' @ [dquote])"
  "last access_json_marker = dquote"
  "\<not> is_token_char dquote"
  "dquote \<notin> set ''sk-ant-''"
  "dquote \<notin> set ''refresh_''"
  by (simp_all add: access_json_marker_def access_key_def dquote_def is_token_char_def)

lemma access_key_not_Nil: "access_key \<noteq> []"
  by (simp add: access_key_def)

lemma mask_access_json_keeps_access:
  assumes "unmatched (match_prefixed ''sk-ant-'') s"
  shows "unmatched (match_prefixed ''sk-ant-'') (mask_access_json s)"
  unfolding mask_access_json_def
proof (rule prefixed_preserved [OF access_json_marker_ends(1)])
  show "\<not> is_token_char dquote" "dquote \<notin> set ''sk-ant-''"
    by (rule access_json_marker_ends)+
  show "\<not> is_token_char (last access_json_marker)" "last access_json_marker \<notin> set ''sk-ant-''"
    unfolding access_json_marker_ends(2) by (rule access_json_marker_ends)+
  show "unmatched (match_prefixed ''sk-ant-'') access_json_marker"
    by (rule json_marker_clean)
  show "match_json_field access_key [] = None"
    by (rule match_json_field_Nil [OF access_key_not_Nil])
  show "match_json_field access_key y \<noteq> Some 0" for y
    by (rule match_json_field_not_zero)
  show "unmatched (match_prefixed ''sk-ant-'') s" by (rule assms)
qed

lemma mask_access_json_keeps_refresh:
  assumes "unmatched (match_prefixed ''refresh_'') s"
  shows "unmatched (match_prefixed ''refresh_'') (mask_access_json s)"
  unfolding mask_access_json_def
proof (rule prefixed_preserved [OF access_json_marker_ends(1)])
  show "\<not> is_token_char dquote" "dquote \<notin> set ''refresh_''"
    by (rule access_json_marker_ends)+
  show "\<not> is_token_char (last access_json_marker)" "last access_json_marker \<notin> set ''refresh_''"
    unfolding access_json_marker_ends(2) by (rule access_json_marker_ends)+
  show "unmatched (match_prefixed ''refresh_'') access_json_marker"
    by (rule json_marker_clean)
  show "match_json_field access_key [] = None"
    by (rule match_json_field_Nil [OF access_key_not_Nil])
  show "match_json_field access_key y \<noteq> Some 0" for y
    by (rule match_json_field_not_zero)
  show "unmatched (match_prefixed ''refresh_'') s" by (rule assms)
qed

text \<open>
  The key \<open>"refresh_token":\<close> holds a match of \<open>refresh_[a-zA-Z0-9_-]+\<close>, so a string
  with no such match has no match of the fourth expression either.
\<close>

lemma refresh_json_never_matches:
  assumes "unmatched (match_prefixed ''refresh_'') s"
  shows "unmatched (match_json_field refresh_key) s"
  unfolding unmatched_iff
proof (intro allI impI)
  fix t assume t: "suffix t s"
  show "match_json_field refresh_key t = None"
  proof (rule ccontr)
    assume "match_json_field refresh_key t \<noteq> None"
    then have "prefix refresh_key t"
      by (auto simp: match_json_field_def split: if_splits)
    then obtain u where "t = refresh_key @ u" by (auto simp: prefix_def)
    then have tl: "t = dquote # (''refresh_'' @ CHR ''t'' # (''oken'' @ [dquote] @ '':'' @ u))"
      by (simp add: refresh_key_def)
    then have "suffix (''refresh_'' @ CHR ''t'' # (''oken'' @ [dquote] @ '':'' @ u)) t"
      by (simp add: suffix_Cons)
    from this t have "suffix (''refresh_'' @ CHR ''t'' # (''oken'' @ [dquote] @ '':'' @ u)) s"
      by (rule suffix_order.trans)
    with assms have "match_prefixed ''refresh_'' (''refresh_'' @ CHR ''t'' # (''oken'' @ [dquote] @ '':'' @ u)) = None"
      unfolding unmatched_iff by blast
    moreover have "match_prefixed ''refresh_'' (''refresh_'' @ CHR ''t'' # (''oken'' @ [dquote] @ '':'' @ u)) \<noteq> None"
      unfolding match_prefixed_iff by (intro exI conjI, rule refl) (simp add: is_token_char_def)
    ultimately show False by simp
  qed
qed

text \<open>
  The third expression: whether it matches at a position before an occurrence of its key
  does not depend on what follows that occurrence.
\<close>

lemma access_key_unbordered:
  assumes "a \<noteq> []" "length a < 15"
  shows "\<not> prefix access_key (a @ access_key @ y)"
proof
  assume p: "prefix access_key (a @ access_key @ y)"
  have "prefix a (a @ access_key @ y)" by simp
  from this p have "prefix a access_key"
    by (rule prefix_length_prefix) (use assms in \<open>simp add: access_key_def\<close>)
  then have "a \<in> set (prefixes access_key)" by simp
  then have "a \<in> set (prefixes (CHR 0x22 # ''access_token'' @ [CHR 0x22] @ '':''))"
    by (simp only: access_key_def dquote_def)
  with assms p show False
    by (simp add: access_key_def dquote_def) (elim disjE; simp)
qed

lemma not_space_dquote: "\<not> is_space dquote"
  by (simp add: is_space_def dquote_def)

lemma access_key_split: "access_key = dquote # (''access_token'' @ dquote # '':'')"
  by (simp add: access_key_def)

lemma match_json_field_key:
  "match_json_field key (key @ rest) =
     (case dropWhile is_space rest of
        [] \<Rightarrow> None
      | q # after \<Rightarrow>
          if q = dquote
          then (if takeWhile not_dquote after = [] then None
                else (case dropWhile not_dquote after of
                        [] \<Rightarrow> None
                      | _ # _ \<Rightarrow> Some (length key + length (takeWhile is_space rest) + 1
                                       + length (takeWhile not_dquote after) + 1)))
          else None)"
proof -
  have d1: "drop (length (takeWhile is_space rest)) rest = dropWhile is_space rest"
    by (simp add: dropWhile_eq_drop)
  have d2: "drop (length (takeWhile not_dquote after)) after = dropWhile not_dquote after" for after
    by (simp add: dropWhile_eq_drop)
  have p: "prefix key (key @ rest)" by simp
  have d0: "drop (length key) (key @ rest) = rest" by simp
  show ?thesis
    unfolding match_json_field_def Let_def by (simp only: p d0 d1 d2 if_True)
qed

lemma value_after_key:
  "match_json_field access_key (access_key @ b @ access_key @ y)
     = match_json_field access_key (access_key @ b @ access_key @ y')"
proof -
  have sp: "takeWhile is_space (b @ access_key @ w) = takeWhile is_space b" for w
    unfolding access_key_split by (simp add: takeWhile_tail not_space_dquote)
  have dr: "dropWhile is_space (b @ access_key @ w) = dropWhile is_space b @ access_key @ w" for w
    unfolding access_key_split by (simp add: dropWhile_append3 not_space_dquote)
  show ?thesis
  proof (cases "dropWhile is_space b")
    case Nil
    have "dropWhile is_space (b @ access_key @ w)
            = dquote # (''access_token'' @ dquote # '':'' @ w)" for w
      unfolding dr Nil by (simp add: access_key_split)
    then show ?thesis
      unfolding match_json_field_key by (simp add: sp not_dquote_def dquote_def)
  next
    case (Cons d b')
    have v: "takeWhile not_dquote (b' @ access_key @ w) = takeWhile not_dquote b'" for w
      unfolding access_key_split by (simp add: takeWhile_tail not_dquote_def)
    have w: "dropWhile not_dquote (b' @ access_key @ w) \<noteq> []" for w
      unfolding access_key_split by (simp add: dropWhile_append3 not_dquote_def)
    have "dropWhile is_space (b @ access_key @ w) = d # (b' @ access_key @ w)" for w
      unfolding dr Cons by simp
    then show ?thesis
      unfolding match_json_field_key
      by (simp add: sp v w list.case_eq_if del: dropWhile_eq_Nil_conv)
  qed
qed

lemma match_after_key:
  assumes "a \<noteq> []"
  shows "match_json_field access_key (a @ access_key @ y)
           = match_json_field access_key (a @ access_key @ y')"
proof (cases "length a < 15")
  case True
  from access_key_unbordered [OF assms True] show ?thesis
    by (simp add: match_json_field_def)
next
  case False
  have la: "length access_key = 15" by (simp add: access_key_def)
  have pre: "prefix access_key (a @ w) \<longleftrightarrow> prefix access_key a" for w
  proof
    assume "prefix access_key (a @ w)"
    then have "prefix access_key a \<or> (\<exists>us. access_key = a @ us \<and> prefix us w)"
      by (simp only: prefix_append)
    then consider "prefix access_key a" | us where "access_key = a @ us" by blast
    then show "prefix access_key a"
    proof cases
      case 1
      then show ?thesis .
    next
      case 2
      then have "length access_key = length (a @ us)" by (rule arg_cong)
      then have "length access_key = length a + length us" by simp
      with la False have "length us = 0" by arith
      then have "us = []" by simp
      with 2 show ?thesis by simp
    qed
  next
    assume "prefix access_key a"
    then show "prefix access_key (a @ w)" by (rule prefix_prefix)
  qed
  show ?thesis
  proof (cases "prefix access_key a")
    case True
    then obtain b where "a = access_key @ b" by (auto simp: prefix_def)
    with value_after_key [of b y y'] show ?thesis by simp
  next
    case False
    with pre show ?thesis by (simp add: match_json_field_def)
  qed
qed

text \<open>A scan whose replacement text matches itself, and only itself, is idempotent.\<close>

lemma replace_all_idem:
  assumes F0: "m [] = None"
    and FZ: "\<And>x. m x \<noteq> Some 0"
    and self: "\<And>y. m (rep @ y) = Some (length rep)"
    and stable: "\<And>u. m u = None \<Longrightarrow> m (replace_all m rep u) = None"
  shows "replace_all m rep (replace_all m rep u) = replace_all m rep u"
proof (induction "length u" arbitrary: u rule: less_induct)
  case less
  show ?case
  proof (cases u)
    case Nil
    with F0 show ?thesis by simp
  next
    case (Cons c cs)
    show ?thesis
    proof (cases "m u")
      case None
      then have g: "replace_all m rep u = c # replace_all m rep cs"
        using Cons by simp
      from stable [OF None] g have "m (c # replace_all m rep cs) = None" by simp
      then have "replace_all m rep (c # replace_all m rep cs)
                   = c # replace_all m rep (replace_all m rep cs)" by simp
      also have "replace_all m rep (replace_all m rep cs) = replace_all m rep cs"
        using less.hyps [of cs] Cons by simp
      finally show ?thesis using g by simp
    next
      case (Some n)
      with FZ [of u] obtain k where k: "n = Suc k" by (cases n) auto
      let ?rest = "drop k cs"
      from Some k Cons have g: "replace_all m rep u = rep @ replace_all m rep ?rest" by simp
      from self [of "[]"] FZ [of rep] obtain r0 r where rep: "rep = r0 # r"
        by (cases rep) auto
      have again: "replace_all m rep (rep @ y) = rep @ replace_all m rep y" for y
        using self [of y] by (simp add: rep)
      have "replace_all m rep (replace_all m rep ?rest) = replace_all m rep ?rest"
        using less.hyps [of ?rest] Cons by simp
      with g again show ?thesis by simp
    qed
  qed
qed

lemma mask_access_json_context:
  "a \<noteq> [] \<Longrightarrow>
     match_json_field access_key (a @ mask_access_json u) = match_json_field access_key (a @ u)"
proof (induction "length u" arbitrary: u a rule: less_induct)
  case less
  show ?case
  proof (cases u)
    case Nil
    then show ?thesis
      by (simp add: mask_access_json_def match_json_field_Nil [OF access_key_not_Nil])
  next
    case (Cons c cs)
    show ?thesis
    proof (cases "match_json_field access_key u")
      case None
      with Cons have g: "mask_access_json u = c # mask_access_json cs"
        by (simp add: mask_access_json_def)
      have "match_json_field access_key ((a @ [c]) @ mask_access_json cs)
              = match_json_field access_key ((a @ [c]) @ cs)"
        by (rule less.hyps) (simp_all add: Cons)
      with g Cons show ?thesis by simp
    next
      case (Some n)
      with match_json_field_not_zero [of access_key u] obtain k where k: "n = Suc k"
        by (cases n) auto
      from Some have "prefix access_key u"
        by (auto simp: match_json_field_def split: if_splits)
      then obtain u' where u': "u = access_key @ u'" by (auto simp: prefix_def)
      from Some k Cons have "mask_access_json u
          = access_json_marker @ mask_access_json (drop k cs)"
        by (simp add: mask_access_json_def)
      then have g: "mask_access_json u = access_key @ (('' '' @ [dquote] @ ''[REDACTED]'' @ [dquote])
                      @ mask_access_json (drop k cs))"
        by (simp add: access_json_marker_def)
      show ?thesis
        unfolding g by (subst u') (rule match_after_key [OF less.prems])
    qed
  qed
qed

lemma mask_access_json_stable:
  assumes "match_json_field access_key u = None"
  shows "match_json_field access_key (mask_access_json u) = None"
proof (cases u)
  case Nil
  then show ?thesis
    by (simp add: mask_access_json_def match_json_field_Nil [OF access_key_not_Nil])
next
  case (Cons c cs)
  with assms have "mask_access_json u = [c] @ mask_access_json cs"
    by (simp add: mask_access_json_def)
  moreover have "match_json_field access_key ([c] @ mask_access_json cs)
                   = match_json_field access_key ([c] @ cs)"
    by (rule mask_access_json_context) simp
  ultimately show ?thesis using assms Cons by simp
qed

lemma access_json_marker_matches:
  "match_json_field access_key (access_json_marker @ y) = Some (length access_json_marker)"
proof -
  have e: "access_json_marker @ y = access_key @ ('' '' @ dquote # ''[REDACTED]'' @ dquote # y)"
    by (simp add: access_json_marker_def)
  have l: "length access_json_marker = 28" "length access_key = 15"
    by (simp_all add: access_json_marker_def access_key_def)
  have "match_json_field access_key (access_key @ ('' '' @ dquote # ''[REDACTED]'' @ dquote # y))
          = Some 28"
    by (subst match_json_field_key) (simp add: l is_space_def not_dquote_def dquote_def)
  then show ?thesis by (simp only: e l)
qed

lemma mask_access_json_idem:
  "mask_access_json (mask_access_json u) = mask_access_json u"
  unfolding mask_access_json_def
proof (rule replace_all_idem)
  show "match_json_field access_key [] = None"
    by (rule match_json_field_Nil [OF access_key_not_Nil])
  show "match_json_field access_key x \<noteq> Some 0" for x
    by (rule match_json_field_not_zero)
  show "match_json_field access_key (access_json_marker @ y) = Some (length access_json_marker)" for y
    by (rule access_json_marker_matches)
  show "match_json_field access_key (replace_all (match_json_field access_key) access_json_marker u) = None"
    if "match_json_field access_key u = None" for u
    using mask_access_json_stable [OF that] by (simp add: mask_access_json_def)
qed

lemma masked_output_clean:
  "unmatched (match_prefixed ''sk-ant-'') (mask_access_json (mask_refresh (mask_access s)))"
  "unmatched (match_prefixed ''refresh_'') (mask_access_json (mask_refresh (mask_access s)))"
  by (intro mask_access_json_keeps_access mask_refresh_keeps_access mask_access_clean,
      intro mask_access_json_keeps_refresh mask_refresh_clean)

lemma maskSensitiveData_three_passes:
  "maskSensitiveData s = mask_access_json (mask_refresh (mask_access s))"
  unfolding maskSensitiveData_def mask_refresh_json_def
  by (rule replace_all_unmatched [OF refresh_json_never_matches [OF masked_output_clean(2)]])

text \<open>
  Whatever the input, no position of the masked output begins a match of either prefixed
  expression.
\<close>

lemma maskSensitiveData_clean:
  "unmatched (match_prefixed ''sk-ant-'') (maskSensitiveData s)"
  "unmatched (match_prefixed ''refresh_'') (maskSensitiveData s)"
  unfolding maskSensitiveData_three_passes by (rule masked_output_clean)+

text \<open>
  C1. The specification asks that every access-token-shaped and refresh-token-shaped
  substring and every JSON fragment \<open>"access_token": "..."\<close> or \<open>"refresh_token": "..."\<close>
  is replaced by its redaction marker. The code misses the last: the second pass
  rewrites the key \<open>refresh_token\<close> itself, which matches \<open>refresh_[a-zA-Z0-9_-]+\<close>, so
  the fourth expression never finds its key and the value stays in the output. The same
  object under the key \<open>access_token\<close> is masked as asked. The inputs are
  \<open>{"refresh_token":"hunter2"}\<close> and \<open>{"access_token":"hunter2"}\<close>.
\<close>

theorem refresh_json_value_not_masked:
  "maskSensitiveData
     (''{'' @ [dquote] @ ''refresh_token'' @ [dquote] @ '':'' @ [dquote] @ ''hunter2''
      @ [dquote] @ ''}'')
     = ''{'' @ [dquote] @ ''[REFRESH_TOKEN_REDACTED]'' @ [dquote] @ '':'' @ [dquote]
       @ ''hunter2'' @ [dquote] @ ''}''
   \<and> maskSensitiveData
     (''{'' @ [dquote] @ ''access_token'' @ [dquote] @ '':'' @ [dquote] @ ''hunter2''
      @ [dquote] @ ''}'')
     = ''{'' @ [dquote] @ ''access_token'' @ [dquote] @ '': '' @ [dquote] @ ''[REDACTED]''
       @ [dquote] @ ''}''"
  by (simp add: mask_defs)

text \<open>
  C9. Masking is idempotent: masking a masked string changes nothing. The first two
  passes find nothing left to replace, the third finds exactly its own markers and
  rewrites them to themselves, and the fourth finds nothing.
\<close>

theorem maskSensitiveData_idempotent:
  "maskSensitiveData (maskSensitiveData s) = maskSensitiveData s"
proof -
  define t where "t = maskSensitiveData s"
  have 1: "mask_access t = t"
    unfolding mask_access_def t_def by (rule replace_all_unmatched [OF maskSensitiveData_clean(1)])
  have 2: "mask_refresh t = t"
    unfolding mask_refresh_def t_def by (rule replace_all_unmatched [OF maskSensitiveData_clean(2)])
  have 3: "mask_access_json t = t"
    unfolding t_def maskSensitiveData_three_passes by (rule mask_access_json_idem)
  have "maskSensitiveData t = mask_access_json (mask_refresh (mask_access t))"
    by (rule maskSensitiveData_three_passes)
  also have "\<dots> = t" by (simp only: 1 2 3)
  finally show ?thesis unfolding t_def .
qed

end
